theory Spec2Isabelle
  imports Main
begin

section \<open>Shared data\<close>

text \<open>
  Values that the TypeScript code can throw or reject a promise with. The scheduler's
  handler takes any of them, so the type only has to tell a few classes apart:
  a fatal configuration error, a transient infrastructure error, the reorganisation
  signal of a ledger read (\<open>invalid_transaction_number_or_time_hash\<close> in
  \<open>docs/implementation.md\<close>), a \<open>TypeError\<close> of the runtime, and anything else.
\<close>

datatype error =
    ConfigurationError
  | TransientInfrastructureError
  | InvalidTransactionNumberOrTimeHash
  | TypeError
  | OtherError string

text \<open>\<open>BlockchainTimeModel\<close>: the logical ledger time and the hash that tells forks apart.\<close>

record BlockchainTimeModel =
  time :: int
  hash :: string

section \<open>\<open>tests/mocks/MockBlockchain.ts\<close>\<close>

text \<open>
  The object literal that \<open>read\<close> builds. Its two string fields are read from the array
  \<open>hashes\<close> by index; a JavaScript array read out of range gives \<open>undefined\<close>,
  which is \<open>None\<close> here.
\<close>

record TransactionModel =
  transactionNumber :: int
  transactionTime :: int
  transactionTimeHash :: "string option"
  anchorString :: "string option"

record ReadResult =
  moreTransactions :: bool
  transactions :: "TransactionModel list"

record MockBlockchain =
  hashes :: "string list"
  latestTime :: "BlockchainTimeModel option"

text \<open>The field initialisers of the class.\<close>

definition newMockBlockchain :: MockBlockchain where
  "newMockBlockchain =
     \<lparr>hashes = [], latestTime = Some \<lparr>time = 500000, hash = ''dummyHash''\<rparr>\<rparr>"

text \<open>\<open>xs[i]\<close> of JavaScript, for an integral index.\<close>

definition js_index :: "'a list \<Rightarrow> int \<Rightarrow> 'a option" where
  "js_index xs i = (if 0 \<le> i \<and> i < int (length xs) then Some (xs ! nat i) else None)"

text \<open>
  The methods are \<open>async\<close>: the caller gets a promise, whose settlement is the first
  component (\<open>Inl\<close> a rejection, \<open>Inr\<close> the value), next to the updated object.
  Transaction numbers are integers; the model is the code for the numbers that a
  JavaScript number holds exactly (below \<open>2\<^sup>5\<^sup>3\<close> in magnitude).
\<close>

definition write_mock :: "string \<Rightarrow> MockBlockchain \<Rightarrow> (error + unit) \<times> MockBlockchain" where
  "write_mock anchor m = (Inr (), m\<lparr>hashes := hashes m @ [anchor]\<rparr>)"

definition read_mock ::
  "int option \<Rightarrow> string option \<Rightarrow> MockBlockchain \<Rightarrow> error + ReadResult" where
  "read_mock sinceTransactionNumber transactionTimeHash_unused m =
     (let since = (case sinceTransactionNumber of None \<Rightarrow> - 1 | Some k \<Rightarrow> k);
          len = int (length (hashes m));
          more = (len > 0 \<and> since < len - 2);
          txs = (if len > 0 \<and> since < len - 1
                 then (let hashIndex = since + 1
                       in [\<lparr>transactionNumber = hashIndex,
                            transactionTime = hashIndex,
                            transactionTimeHash = js_index (hashes m) hashIndex,
                            anchorString = js_index (hashes m) hashIndex\<rparr>])
                 else [])
      in Inr \<lparr>moreTransactions = more, transactions = txs\<rparr>)"

definition getFirstValidTransaction_mock ::
  "TransactionModel list \<Rightarrow> MockBlockchain \<Rightarrow> error + TransactionModel option" where
  "getFirstValidTransaction_mock txs m = Inr None"

text \<open>
  The getter \<open>approximateTime\<close> returns \<open>this.latestTime!\<close>: the non-null assertion is erased
  at run time, so an unset field is handed out as it is.
\<close>

definition approximateTime_mock :: "MockBlockchain \<Rightarrow> BlockchainTimeModel option" where
  "approximateTime_mock m = latestTime m"

definition setLatestTime :: "BlockchainTimeModel \<Rightarrow> MockBlockchain \<Rightarrow> MockBlockchain" where
  "setLatestTime t m = m\<lparr>latestTime := Some t\<rparr>"

text \<open>A sequence of \<open>write\<close> calls, each awaited, oldest first.\<close>

definition writes_mock :: "string list \<Rightarrow> MockBlockchain \<Rightarrow> MockBlockchain" where
  "writes_mock anchors m = fold (\<lambda>a m'. snd (write_mock a m')) anchors m"

section \<open>\<open>lib/core/BatchScheduler.ts\<close>\<close>

subsection \<open>Collaborators and observable effects\<close>

text \<open>
  The scheduler is constructed with a version-dispatch function \<open>getBatchWriter\<close>, a
  ledger client \<open>blockchain\<close> and the interval. What the two collaborators answer during
  one attempt is a record: the getter \<open>approximateTime\<close> returns a time or throws, the
  dispatch function returns a writer or throws, and the call \<open>batchWriter.write()\<close> either
  throws at once or hands back a promise, which settles later (the field for that call
  is \<open>write_call\<close>). A writer instance is identified by a number.
\<close>

type_synonym writer = nat

record collaborators =
  approximateTime :: "error + BlockchainTimeModel"
  getBatchWriter :: "int \<Rightarrow> error + writer"
  write_call :: "writer \<Rightarrow> error + unit"

text \<open>
  The mock ledger as the scheduler's \<open>blockchain\<close>: reading \<open>.time\<close> of an unset
  \<open>latestTime\<close> raises a \<open>TypeError\<close> inside the \<open>try\<close> block.
\<close>

definition approximateTime_of_mock :: "MockBlockchain \<Rightarrow> error + BlockchainTimeModel" where
  "approximateTime_of_mock m =
     (case approximateTime_mock m of None \<Rightarrow> Inl TypeError | Some bt \<Rightarrow> Inr bt)"

text \<open>
  The console lines, by their template (the numbers are the interpolated values), and
  everything the scheduler does to the outside, in the order in which it does it.
\<close>

datatype message =
    MsgStopped
  | MsgStart
  | MsgUnexpected
  | MsgThrown error
  | MsgEnd nat
  | MsgWaiting int

datatype effect =
    ConsoleInfo message
  | ConsoleError message
  | ApproximateTime
  | GetBatchWriter int
  | Write writer
  | SetImmediate
  | SetTimeout int

subsection \<open>The scheduler inside an event loop\<close>

text \<open>
  The state holds the two private fields of the class and what the runtime keeps for it:
  a clock in milliseconds, the callbacks \<open>() => this.writeOperationBatch()\<close> that
  \<open>setImmediate\<close> and \<open>setTimeout\<close> have queued (each with the earliest time at which
  it may run), and the attempts suspended at \<open>await batchWriter.write()\<close> (each with the
  reading of its \<open>endTimer\<close> and its writer). The remaining fields record what happened:
  the effects, the clock reading at which each attempt began, and for each attempt that
  ran to its end its start, its end and the settlement of the promise that
  \<open>writeOperationBatch\<close> returned.

  The interval is a whole number of seconds, of any sign (a fractional one would go
  through the rounding of the floating-point product, which is not modelled). Synchronous
  code takes no time, and the console, the stopwatch \<open>timeSpan\<close> and the two timer
  functions do not throw.
\<close>

text \<open>
  \<open>setTimeout\<close> of Node.js runs the callback once, no earlier than the delay after the
  call, and it replaces a delay that is not between 1 and \<open>TIMEOUT_MAX\<close>, which is
  \<open>2\<^sup>3\<^sup>1 - 1\<close>, by 1 millisecond.
\<close>

definition TIMEOUT_MAX :: int where
  "TIMEOUT_MAX = 2147483647"

definition setTimeout_delay :: "int \<Rightarrow> nat" where
  "setTimeout_delay after = (if 1 \<le> after \<and> after \<le> TIMEOUT_MAX then nat after else 1)"

record world =
  continuePeriodicBatchWriting :: bool
  batchingIntervalInSeconds :: int
  clock :: nat
  timers :: "nat list"
  inflight :: "(nat \<times> writer) list"
  effects :: "effect list"
  starts :: "nat list"
  finished :: "(nat \<times> nat \<times> (error + unit)) list"

definition newBatchScheduler :: "int \<Rightarrow> world" where
  "newBatchScheduler interval =
     \<lparr>continuePeriodicBatchWriting = False, batchingIntervalInSeconds = interval,
      clock = 0, timers = [], inflight = [], effects = [], starts = [], finished = []\<rparr>"

definition remove_nth :: "nat \<Rightarrow> 'a list \<Rightarrow> 'a list" where
  "remove_nth i xs = take i xs @ drop (Suc i) xs"

definition startPeriodicBatchWriting :: "world \<Rightarrow> world" where
  "startPeriodicBatchWriting w =
     w\<lparr>continuePeriodicBatchWriting := True,
       effects := effects w @ [SetImmediate],
       timers := timers w @ [clock w]\<rparr>"

definition stopPeriodicBatchWriting :: "world \<Rightarrow> world" where
  "stopPeriodicBatchWriting w =
     w\<lparr>effects := effects w @ [ConsoleInfo MsgStopped],
       continuePeriodicBatchWriting := False\<rparr>"

text \<open>
  The \<open>try\<close> block up to the \<open>await\<close>: its effects, and either the value thrown or the
  writer whose promise is awaited.
\<close>

definition try_block :: "collaborators \<Rightarrow> effect list \<times> (error + writer)" where
  "try_block c =
     (case approximateTime c of
        Inl e \<Rightarrow> ([ConsoleInfo MsgStart, ApproximateTime], Inl e)
      | Inr bt \<Rightarrow>
          (let currentTime = time bt in
           case getBatchWriter c currentTime of
             Inl e \<Rightarrow>
               ([ConsoleInfo MsgStart, ApproximateTime, GetBatchWriter currentTime], Inl e)
           | Inr batchWriter \<Rightarrow>
               ([ConsoleInfo MsgStart, ApproximateTime, GetBatchWriter currentTime,
                 Write batchWriter],
                case write_call c batchWriter of Inl e \<Rightarrow> Inl e | Inr _ \<Rightarrow> Inr batchWriter)))"

definition catch_block :: "error \<Rightarrow> world \<Rightarrow> world" where
  "catch_block e w =
     w\<lparr>effects := effects w @ [ConsoleError MsgUnexpected, ConsoleError (MsgThrown e)]\<rparr>"

definition finally_block :: "nat \<Rightarrow> world \<Rightarrow> world" where
  "finally_block endTimer w =
     (let w1 = w\<lparr>effects := effects w @ [ConsoleInfo (MsgEnd (clock w - endTimer))]\<rparr>
      in if continuePeriodicBatchWriting w1
         then w1\<lparr>effects := effects w1 @
                    [ConsoleInfo (MsgWaiting (batchingIntervalInSeconds w1)),
                     SetTimeout (batchingIntervalInSeconds w1 * 1000)],
                 timers := timers w1 @ [clock w1 + setTimeout_delay (batchingIntervalInSeconds w1 * 1000)]\<rparr>
         else w1)"

text \<open>
  The rest of an attempt once the \<open>try\<close> block has ended with \<open>r\<close>: the handler if
  \<open>r\<close> is a thrown value, then \<open>finally\<close>, then the settlement of the promise of
  \<open>writeOperationBatch\<close>. A handler that ends normally turns the throw into a normal end.
\<close>

definition complete :: "nat \<Rightarrow> error + unit \<Rightarrow> world \<Rightarrow> world" where
  "complete endTimer r w =
     (let (settlement, w1) =
            (case r of Inl e \<Rightarrow> (Inr (), catch_block e w) | Inr v \<Rightarrow> (Inr v, w));
          w2 = finally_block endTimer w1
      in w2\<lparr>finished := finished w2 @ [(endTimer, clock w2, settlement)]\<rparr>)"

text \<open>
  \<open>writeOperationBatch\<close> from its call to its first suspension: a throw before the
  \<open>await\<close> finishes the attempt in the same turn, otherwise the attempt is in flight.
\<close>

definition writeOperationBatch :: "collaborators \<Rightarrow> world \<Rightarrow> world" where
  "writeOperationBatch c w =
     (let endTimer = clock w;
          (es, r) = try_block c;
          w1 = w\<lparr>starts := starts w @ [endTimer], effects := effects w @ es\<rparr>
      in case r of
           Inl e \<Rightarrow> complete endTimer (Inl e) w1
         | Inr batchWriter \<Rightarrow> w1\<lparr>inflight := inflight w1 @ [(endTimer, batchWriter)]\<rparr>)"

text \<open>The attempt at position \<open>i\<close> of the suspended ones goes on when its promise settles.\<close>

definition resume :: "nat \<Rightarrow> error + unit \<Rightarrow> world \<Rightarrow> world option" where
  "resume i r w =
     (if i < length (inflight w)
      then Some (complete (fst (inflight w ! i)) r
                   (w\<lparr>inflight := remove_nth i (inflight w)\<rparr>))
      else None)"

text \<open>
  What can happen next: a call of one of the three public methods, time passing, the
  runtime running a queued callback that is due, or an awaited promise settling.
  A step that the state does not allow gives \<open>None\<close>.
\<close>

datatype event =
    CallStart
  | CallStop
  | CallWriteOperationBatch collaborators
  | Elapse nat
  | RunCallback nat collaborators
  | SettleWrite nat "error + unit"

fun step :: "event \<Rightarrow> world \<Rightarrow> world option" where
  "step CallStart w = Some (startPeriodicBatchWriting w)"
| "step CallStop w = Some (stopPeriodicBatchWriting w)"
| "step (CallWriteOperationBatch c) w = Some (writeOperationBatch c w)"
| "step (Elapse d) w = Some (w\<lparr>clock := clock w + d\<rparr>)"
| "step (RunCallback i c) w =
     (if i < length (timers w) \<and> timers w ! i \<le> clock w
      then Some (writeOperationBatch c (w\<lparr>timers := remove_nth i (timers w)\<rparr>))
      else None)"
| "step (SettleWrite i r) w = resume i r w"

fun exec :: "event list \<Rightarrow> world \<Rightarrow> world option" where
  "exec [] w = Some w"
| "exec (e # es) w = (case step e w of None \<Rightarrow> None | Some w' \<Rightarrow> exec es w')"

text \<open>Executions in which the loop is entered only through \<open>startPeriodicBatchWriting\<close>.\<close>

fun is_start :: "event \<Rightarrow> bool" where
  "is_start CallStart = True"
| "is_start _ = False"

fun is_direct_call :: "event \<Rightarrow> bool" where
  "is_direct_call (CallWriteOperationBatch _) = True"
| "is_direct_call _ = False"


fun is_collaborator_call :: "effect \<Rightarrow> bool" where
  "is_collaborator_call ApproximateTime = True"
| "is_collaborator_call (GetBatchWriter _) = True"
| "is_collaborator_call (Write _) = True"
| "is_collaborator_call _ = False"

subsection \<open>Sample collaborators\<close>

text \<open>
  Collaborators for concrete executions: the mock ledger with its initial time, a
  dispatch function that returns writer 0 for every time, and a writer whose call returns
  a promise; and the same with a dispatch function that throws \<open>ConfigurationError\<close>.
\<close>

definition steady_collaborators :: collaborators where
  "steady_collaborators =
     \<lparr>approximateTime = approximateTime_of_mock newMockBlockchain,
      getBatchWriter = (\<lambda>t. Inr 0),
      write_call = (\<lambda>bw. Inr ())\<rparr>"

definition misconfigured_collaborators :: collaborators where
  "misconfigured_collaborators =
     steady_collaborators\<lparr>getBatchWriter := (\<lambda>t. Inl ConfigurationError)\<rparr>"

subsection \<open>Sample executions\<close>

text \<open>
  A scheduler with an interval of one second is started at time 0, its first attempt
  begins at once, and the write is still pending three seconds later; then the write
  resolves.
\<close>

definition slow_write_pending :: "event list" where
  "slow_write_pending = [CallStart, RunCallback 0 steady_collaborators, Elapse 3000]"

definition slow_write_run :: "event list" where
  "slow_write_run = slow_write_pending @ [SettleWrite 0 (Inr ())]"

definition slow_write_world :: world where
  "slow_write_world =
     \<lparr>continuePeriodicBatchWriting = True, batchingIntervalInSeconds = 1,
      clock = 3000, timers = [], inflight = [(0, 0)],
      effects = [SetImmediate, ConsoleInfo MsgStart, ApproximateTime,
                 GetBatchWriter 500000, Write 0],
      starts = [0], finished = []\<rparr>"

section \<open>The ledger client's \<open>read\<close>\<close>

text \<open>
  The sources at hand hold the test mock of the ledger client and the description of the
  ledger service in \<open>docs/implementation.md\<close>, not the client itself. The canonical chain
  is the list of its transactions, oldest first.
\<close>

text \<open>
  Modelled from the spec: a batch of transactions as \<open>read\<close> returns it; the client's
  \<open>read\<close> is missing. At most \<open>batch\<close> transactions are returned, and \<open>moreTransactions\<close>
  tells whether there are more beyond them.
\<close>

definition page :: "nat \<Rightarrow> TransactionModel list \<Rightarrow> ReadResult" where
  "page batch txs = \<lparr>moreTransactions = (batch < length txs), transactions = take batch txs\<rparr>"

text \<open>
  Modelled from the spec: whether a hash matches the canonical chain at a transaction
  number; the client's \<open>read\<close> is missing. The hash is the time hash of the transaction
  with that number.
\<close>

definition matches_chain :: "TransactionModel list \<Rightarrow> int \<Rightarrow> string \<Rightarrow> bool" where
  "matches_chain chain n h =
     list_ex (\<lambda>tx. transactionNumber tx = n \<and> transactionTimeHash tx = Some h) chain"

text \<open>
  Modelled from the spec: \<open>read(sinceTransactionNumber?, sinceTransactionTimeHash?)\<close> of
  the ledger client, which is missing. Without a number it returns the transactions since
  inception; with a number, which comes with its hash, it returns the transactions after
  that number, and fails with the reorganisation signal when the hash does not match the
  canonical chain at that number.
\<close>

definition read_client ::
  "nat \<Rightarrow> (int \<times> string) option \<Rightarrow> TransactionModel list \<Rightarrow> error + ReadResult" where
  "read_client batch since chain =
     (case since of
        None \<Rightarrow> Inr (page batch chain)
      | Some (n, h) \<Rightarrow>
          if matches_chain chain n h
          then Inr (page batch (filter (\<lambda>tx. n < transactionNumber tx) chain))
          else Inl InvalidTransactionNumberOrTimeHash)"

text \<open>
  A chain of two transactions, and the chain after a reorganisation has replaced the block
  of the second one.
\<close>

definition chain_before :: "TransactionModel list" where
  "chain_before =
     [\<lparr>transactionNumber = 0, transactionTime = 10,
       transactionTimeHash = Some ''h10'', anchorString = Some ''a0''\<rparr>,
      \<lparr>transactionNumber = 1, transactionTime = 11,
       transactionTimeHash = Some ''h11'', anchorString = Some ''a1''\<rparr>]"

definition chain_after :: "TransactionModel list" where
  "chain_after =
     [\<lparr>transactionNumber = 0, transactionTime = 10,
       transactionTimeHash = Some ''h10'', anchorString = Some ''a0''\<rparr>,
      \<lparr>transactionNumber = 1, transactionTime = 11,
       transactionTimeHash = Some ''h11x'', anchorString = Some ''a1''\<rparr>]"

section \<open>Properties of the mock ledger\<close>

lemma hashes_writes_mock: "hashes (writes_mock anchors m) = hashes m @ anchors"
  unfolding writes_mock_def
  by (induction anchors arbitrary: m) (simp_all add: write_mock_def)

text \<open>
  C9. After the writes \<open>a\<^sub>0 \<dots> a\<^sub>n\<^sub>-\<^sub>1\<close> on a fresh mock ledger, a read since \<open>k\<close> with
  \<open>-1 \<le> k < n - 1\<close> resolves with exactly one transaction, whose number and time are
  \<open>k + 1\<close> and whose anchor string and time hash are \<open>a\<^sub>k\<^sub>+\<^sub>1\<close>, and \<open>moreTransactions\<close> holds
  iff \<open>k < n - 2\<close>; a read without a number is the read since \<open>-1\<close>; a read since
  \<open>k \<ge> n - 1\<close>, and every read when nothing was written, resolves with no transaction
  and \<open>moreTransactions = false\<close>.
\<close>

theorem mock_round_trip:
  "(- 1 \<le> k \<and> k < int (length anchors) - 1 \<longrightarrow>
      read_mock (Some k) h (writes_mock anchors newMockBlockchain) =
        Inr \<lparr>moreTransactions = (k < int (length anchors) - 2),
             transactions = [\<lparr>transactionNumber = k + 1, transactionTime = k + 1,
                              transactionTimeHash = Some (anchors ! nat (k + 1)),
                              anchorString = Some (anchors ! nat (k + 1))\<rparr>]\<rparr>)
   \<and> read_mock None h (writes_mock anchors newMockBlockchain) =
       read_mock (Some (- 1)) h (writes_mock anchors newMockBlockchain)
   \<and> (int (length anchors) - 1 \<le> k \<longrightarrow>
        read_mock (Some k) h (writes_mock anchors newMockBlockchain) =
          Inr \<lparr>moreTransactions = False, transactions = []\<rparr>)
   \<and> (anchors = [] \<longrightarrow>
        read_mock since h (writes_mock anchors newMockBlockchain) =
          Inr \<lparr>moreTransactions = False, transactions = []\<rparr>)"
  by (auto simp: read_mock_def hashes_writes_mock newMockBlockchain_def js_index_def Let_def)

theorem mock_round_trip_witness:
  "read_mock (Some 0) None (writes_mock [''a'', ''b'', ''c''] newMockBlockchain) =
     Inr \<lparr>moreTransactions = True,
          transactions = [\<lparr>transactionNumber = 1, transactionTime = 1,
                           transactionTimeHash = Some ''b'', anchorString = Some ''b''\<rparr>]\<rparr>
   \<and> read_mock (Some 2) None (writes_mock [''a'', ''b'', ''c''] newMockBlockchain) =
     Inr \<lparr>moreTransactions = False, transactions = []\<rparr>
   \<and> read_mock (Some 5) None (writes_mock [] newMockBlockchain) =
     Inr \<lparr>moreTransactions = False, transactions = []\<rparr>"
  using mock_round_trip [where k = 0 and anchors = "[''a'', ''b'', ''c'']" and h = None]
    mock_round_trip [where k = 2 and anchors = "[''a'', ''b'', ''c'']" and h = None]
    mock_round_trip [where anchors = "[]" and since = "Some 5" and h = None]
  by simp

text \<open>
  The mock does not look at the hash it is given, so it cannot tell a reorganisation.
\<close>

lemma read_mock_ignores_hash: "read_mock k h m = read_mock k h' m"
  by (simp add: read_mock_def Let_def)

section \<open>Properties of the ledger client's \<open>read\<close>\<close>

text \<open>
  C5. A read with a transaction number and a hash that does not match the canonical
  chain at that number fails with the reorganisation signal, and so does not return a
  result \<open>{moreTransactions, transactions}\<close>; a read whose hash matches returns one.
\<close>

theorem read_client_signals_reorg:
  "(\<not> matches_chain chain n h \<longrightarrow>
      read_client batch (Some (n, h)) chain = Inl InvalidTransactionNumberOrTimeHash
      \<and> read_client batch (Some (n, h)) chain \<noteq> Inr res)
   \<and> (matches_chain chain n h \<longrightarrow>
      read_client batch (Some (n, h)) chain =
        Inr (page batch (filter (\<lambda>tx. n < transactionNumber tx) chain)))"
  by (simp add: read_client_def)

theorem read_client_signals_reorg_witness:
  "matches_chain chain_before 1 ''h11''
   \<and> read_client 10 (Some (1, ''h11'')) chain_before =
       Inr \<lparr>moreTransactions = False, transactions = []\<rparr>
   \<and> \<not> matches_chain chain_after 1 ''h11''
   \<and> read_client 10 (Some (1, ''h11'')) chain_after = Inl InvalidTransactionNumberOrTimeHash"
proof -
  have h1: "matches_chain chain_before 1 ''h11''"
    by (simp add: matches_chain_def chain_before_def)
  have h2: "\<not> matches_chain chain_after 1 ''h11''"
    by (simp add: matches_chain_def chain_after_def)
  from read_client_signals_reorg [where chain = chain_before and n = 1 and h = "''h11''"
      and batch = 10] h1
  have c1: "read_client 10 (Some (1, ''h11'')) chain_before =
      Inr (page 10 (filter (\<lambda>tx. 1 < transactionNumber tx) chain_before))"
    by blast
  from read_client_signals_reorg [where chain = chain_after and n = 1 and h = "''h11''"
      and batch = 10] h2
  have c2: "read_client 10 (Some (1, ''h11'')) chain_after =
      Inl InvalidTransactionNumberOrTimeHash"
    by blast
  from c1 have c1': "read_client 10 (Some (1, ''h11'')) chain_before =
      Inr \<lparr>moreTransactions = False, transactions = []\<rparr>"
    by (simp add: page_def chain_before_def)
  from h1 h2 c1' c2 show ?thesis by blast
qed

section \<open>Properties of the scheduler\<close>

subsection \<open>What each block does to each field\<close>

lemma finally_block_simps:
  "continuePeriodicBatchWriting (finally_block s w) = continuePeriodicBatchWriting w"
  "batchingIntervalInSeconds (finally_block s w) = batchingIntervalInSeconds w"
  "clock (finally_block s w) = clock w"
  "inflight (finally_block s w) = inflight w"
  "starts (finally_block s w) = starts w"
  "finished (finally_block s w) = finished w"
  "timers (finally_block s w) =
     timers w @ (if continuePeriodicBatchWriting w
                 then [clock w + setTimeout_delay (batchingIntervalInSeconds w * 1000)] else [])"
  "effects (finally_block s w) =
     effects w @ ConsoleInfo (MsgEnd (clock w - s)) #
       (if continuePeriodicBatchWriting w
        then [ConsoleInfo (MsgWaiting (batchingIntervalInSeconds w)),
              SetTimeout (batchingIntervalInSeconds w * 1000)] else [])"
  by (simp_all add: finally_block_def Let_def)

lemma catch_block_simps:
  "continuePeriodicBatchWriting (catch_block e w) = continuePeriodicBatchWriting w"
  "batchingIntervalInSeconds (catch_block e w) = batchingIntervalInSeconds w"
  "clock (catch_block e w) = clock w"
  "inflight (catch_block e w) = inflight w"
  "starts (catch_block e w) = starts w"
  "finished (catch_block e w) = finished w"
  "timers (catch_block e w) = timers w"
  "effects (catch_block e w) =
     effects w @ [ConsoleError MsgUnexpected, ConsoleError (MsgThrown e)]"
  by (simp_all add: catch_block_def)

lemma complete_simps:
  "continuePeriodicBatchWriting (complete s r w) = continuePeriodicBatchWriting w"
  "batchingIntervalInSeconds (complete s r w) = batchingIntervalInSeconds w"
  "clock (complete s r w) = clock w"
  "inflight (complete s r w) = inflight w"
  "starts (complete s r w) = starts w"
  "finished (complete s r w) = finished w @ [(s, clock w, Inr ())]"
  "timers (complete s r w) =
     timers w @ (if continuePeriodicBatchWriting w
                 then [clock w + setTimeout_delay (batchingIntervalInSeconds w * 1000)] else [])"
  "effects (complete s r w) =
     effects w @
       (case r of Inl e \<Rightarrow> [ConsoleError MsgUnexpected, ConsoleError (MsgThrown e)]
                | Inr _ \<Rightarrow> []) @
       ConsoleInfo (MsgEnd (clock w - s)) #
       (if continuePeriodicBatchWriting w
        then [ConsoleInfo (MsgWaiting (batchingIntervalInSeconds w)),
              SetTimeout (batchingIntervalInSeconds w * 1000)] else [])"
  by (simp_all add: complete_def Let_def finally_block_simps catch_block_simps split: sum.splits)


lemma writeOperationBatch_thrown:
  assumes "snd (try_block c) = Inl e"
  shows "writeOperationBatch c w =
           complete (clock w) (Inl e)
             (w\<lparr>starts := starts w @ [clock w], effects := effects w @ fst (try_block c)\<rparr>)"
  using assms by (cases "try_block c") (simp add: writeOperationBatch_def Let_def)

lemma writeOperationBatch_awaiting:
  assumes "snd (try_block c) = Inr bw"
  shows "writeOperationBatch c w =
           w\<lparr>starts := starts w @ [clock w], effects := effects w @ fst (try_block c),
             inflight := inflight w @ [(clock w, bw)]\<rparr>"
  using assms by (cases "try_block c") (simp add: writeOperationBatch_def Let_def)

lemma writeOperationBatch_simps:
  "continuePeriodicBatchWriting (writeOperationBatch c w) = continuePeriodicBatchWriting w"
  "batchingIntervalInSeconds (writeOperationBatch c w) = batchingIntervalInSeconds w"
  "clock (writeOperationBatch c w) = clock w"
  "starts (writeOperationBatch c w) = starts w @ [clock w]"
  by (cases "snd (try_block c)";
      simp add: writeOperationBatch_thrown writeOperationBatch_awaiting complete_simps)+

lemma writeOperationBatch_timers:
  "timers (writeOperationBatch c w) =
     timers w @ (if isl (snd (try_block c)) \<and> continuePeriodicBatchWriting w
                 then [clock w + setTimeout_delay (batchingIntervalInSeconds w * 1000)] else [])"
  by (cases "snd (try_block c)";
      simp add: writeOperationBatch_thrown writeOperationBatch_awaiting complete_simps)

lemma writeOperationBatch_inflight:
  "inflight (writeOperationBatch c w) =
     inflight w @ (case snd (try_block c) of Inl _ \<Rightarrow> [] | Inr bw \<Rightarrow> [(clock w, bw)])"
  by (cases "snd (try_block c)";
      simp add: writeOperationBatch_thrown writeOperationBatch_awaiting complete_simps)

lemma writeOperationBatch_finished:
  "finished (writeOperationBatch c w) =
     finished w @ (if isl (snd (try_block c)) then [(clock w, clock w, Inr ())] else [])"
  by (cases "snd (try_block c)";
      simp add: writeOperationBatch_thrown writeOperationBatch_awaiting complete_simps)

lemma length_remove_nth: "i < length xs \<Longrightarrow> length (remove_nth i xs) = length xs - 1"
  by (simp add: remove_nth_def)

lemma set_remove_nth: "set (remove_nth i xs) \<subseteq> set xs"
  unfolding remove_nth_def
  using set_take_subset [of i xs] set_drop_subset [of "Suc i" xs] by auto

lemma remove_nth_last: "remove_nth (length xs) (xs @ [x]) = xs"
  by (simp add: remove_nth_def)

lemma start_simps:
  "continuePeriodicBatchWriting (startPeriodicBatchWriting w)"
  "batchingIntervalInSeconds (startPeriodicBatchWriting w) = batchingIntervalInSeconds w"
  "clock (startPeriodicBatchWriting w) = clock w"
  "timers (startPeriodicBatchWriting w) = timers w @ [clock w]"
  "inflight (startPeriodicBatchWriting w) = inflight w"
  "effects (startPeriodicBatchWriting w) = effects w @ [SetImmediate]"
  "starts (startPeriodicBatchWriting w) = starts w"
  "finished (startPeriodicBatchWriting w) = finished w"
  by (simp_all add: startPeriodicBatchWriting_def)

lemma stop_simps:
  "\<not> continuePeriodicBatchWriting (stopPeriodicBatchWriting w)"
  "batchingIntervalInSeconds (stopPeriodicBatchWriting w) = batchingIntervalInSeconds w"
  "clock (stopPeriodicBatchWriting w) = clock w"
  "timers (stopPeriodicBatchWriting w) = timers w"
  "inflight (stopPeriodicBatchWriting w) = inflight w"
  "effects (stopPeriodicBatchWriting w) = effects w @ [ConsoleInfo MsgStopped]"
  "starts (stopPeriodicBatchWriting w) = starts w"
  "finished (stopPeriodicBatchWriting w) = finished w"
  by (simp_all add: stopPeriodicBatchWriting_def)

lemma exec_append:
  "exec (es @ es') w = (case exec es w of None \<Rightarrow> None | Some w' \<Rightarrow> exec es' w')"
  by (induction es arbitrary: w) (simp_all split: option.splits)

subsection \<open>Sample executions, evaluated\<close>

lemmas run_defs =
  newBatchScheduler_def startPeriodicBatchWriting_def stopPeriodicBatchWriting_def
  remove_nth_def writeOperationBatch_def try_block_def resume_def complete_def
  finally_block_def catch_block_def steady_collaborators_def
  misconfigured_collaborators_def approximateTime_of_mock_def approximateTime_mock_def
  newMockBlockchain_def slow_write_pending_def slow_write_run_def
  setTimeout_delay_def TIMEOUT_MAX_def Let_def

lemma setTimeout_delay_one_second: "setTimeout_delay 1000 = 1000"
  by (simp add: setTimeout_delay_def TIMEOUT_MAX_def)

lemma slow_write_pending_world:
  "exec slow_write_pending (newBatchScheduler 1) = Some slow_write_world"
  by (simp add: run_defs slow_write_world_def)

lemma try_block_steady: "try_block steady_collaborators =
    ([ConsoleInfo MsgStart, ApproximateTime, GetBatchWriter 500000, Write 0], Inr 0)"
  by (simp add: run_defs)


subsection \<open>Invariants of executions\<close>



lemma step_budget:
  assumes "step e w = Some w'" and "\<not> is_direct_call e"
  shows "length (timers w') + length (inflight w') \<le>
           length (timers w) + length (inflight w) + (if is_start e then 1 else 0)"
proof (cases e)
  case CallStart
  with assms show ?thesis by (auto simp: start_simps)
next
  case CallStop
  with assms show ?thesis by (auto simp: stop_simps)
next
  case (CallWriteOperationBatch c)
  with assms show ?thesis by simp
next
  case (Elapse d)
  with assms show ?thesis by auto
next
  case (RunCallback i c)
  with assms show ?thesis
    by (cases "snd (try_block c)")
       (auto simp: writeOperationBatch_timers writeOperationBatch_inflight length_remove_nth
             split: if_splits)
next
  case (SettleWrite i r)
  with assms show ?thesis
    by (auto simp: resume_def complete_simps length_remove_nth split: if_splits)
qed

lemma exec_budget:
  assumes "exec es w = Some w'" and "\<not> list_ex is_direct_call es"
  shows "length (timers w') + length (inflight w') \<le>
           length (timers w) + length (inflight w) + length (filter is_start es)"
  using assms
proof (induction es arbitrary: w)
  case Nil
  then show ?case by simp
next
  case (Cons e es)
  from Cons.prems(1) obtain v where v: "step e w = Some v" and rest: "exec es v = Some w'"
    by (auto split: option.splits)
  from Cons.prems(2) have ne: "\<not> is_direct_call e" and nes: "\<not> list_ex is_direct_call es"
    by simp_all
  from step_budget [OF v ne] Cons.IH [OF rest nes] show ?case
    by (simp split: if_splits)
qed

lemma step_attempt_count:
  assumes "step e w = Some w'"
    and "length (starts w) = length (finished w) + length (inflight w)"
  shows "length (starts w') = length (finished w') + length (inflight w')"
proof (cases e)
  case CallStart
  with assms show ?thesis by (auto simp: start_simps)
next
  case CallStop
  with assms show ?thesis by (auto simp: stop_simps)
next
  case (CallWriteOperationBatch c)
  with assms show ?thesis
    by (cases "snd (try_block c)")
       (auto simp: writeOperationBatch_simps writeOperationBatch_inflight
                   writeOperationBatch_finished)
next
  case (Elapse d)
  with assms show ?thesis by auto
next
  case (RunCallback i c)
  with assms show ?thesis
    by (cases "snd (try_block c)")
       (auto simp: writeOperationBatch_simps writeOperationBatch_inflight
                   writeOperationBatch_finished split: if_splits)
next
  case (SettleWrite i r)
  with assms show ?thesis
    by (auto simp: resume_def complete_simps length_remove_nth split: if_splits)
qed

lemma exec_attempt_count:
  assumes "exec es w = Some w'"
    and "length (starts w) = length (finished w) + length (inflight w)"
  shows "length (starts w') = length (finished w') + length (inflight w')"
  using assms
proof (induction es arbitrary: w)
  case Nil
  then show ?case by simp
next
  case (Cons e es)
  from Cons.prems(1) obtain v where v: "step e w = Some v" and rest: "exec es v = Some w'"
    by (auto split: option.splits)
  from Cons.IH [OF rest step_attempt_count [OF v Cons.prems(2)]] show ?case .
qed

lemma step_after_bound:
  assumes "step e w = Some w'" and "\<not> is_start e" and "\<not> is_direct_call e"
    and "M \<le> clock w"
    and "list_all (\<lambda>d. M + setTimeout_delay (batchingIntervalInSeconds w * 1000) \<le> d) (timers w)"
  shows "M \<le> clock w'
         \<and> batchingIntervalInSeconds w' = batchingIntervalInSeconds w
         \<and> list_all (\<lambda>d. M + setTimeout_delay (batchingIntervalInSeconds w * 1000) \<le> d) (timers w')
         \<and> take (length (starts w)) (starts w') = starts w
         \<and> list_all (\<lambda>t. M + setTimeout_delay (batchingIntervalInSeconds w * 1000) \<le> t)
              (drop (length (starts w)) (starts w'))"
proof (cases e)
  case CallStart
  with assms show ?thesis by simp
next
  case CallStop
  with assms show ?thesis by (auto simp: stop_simps)
next
  case (CallWriteOperationBatch c)
  with assms show ?thesis by simp
next
  case (Elapse d)
  with assms show ?thesis by auto
next
  case (RunCallback i c)
  with assms have i: "i < length (timers w)" and due: "timers w ! i \<le> clock w"
    and w': "w' = writeOperationBatch c (w\<lparr>timers := remove_nth i (timers w)\<rparr>)"
    by (auto split: if_splits)
  from assms(5) i have "M + setTimeout_delay (batchingIntervalInSeconds w * 1000) \<le> timers w ! i"
    by (simp add: list_all_length)
  with due have now: "M + setTimeout_delay (batchingIntervalInSeconds w * 1000) \<le> clock w" by simp
  have rest: "list_all (\<lambda>d. M + setTimeout_delay (batchingIntervalInSeconds w * 1000) \<le> d)
                (remove_nth i (timers w))"
    using assms(5) set_remove_nth [of i "timers w"] by (auto simp: list_all_iff)
  from now rest assms(4) show ?thesis
    unfolding w' by (simp add: writeOperationBatch_simps writeOperationBatch_timers)
next
  case (SettleWrite i r)
  with assms show ?thesis
    by (auto simp: resume_def complete_simps split: if_splits)
qed

lemma exec_after_bound:
  assumes "exec es w = Some w'" and "\<not> list_ex is_start es"
    and "\<not> list_ex is_direct_call es" and "M \<le> clock w"
    and "list_all (\<lambda>d. M + setTimeout_delay (batchingIntervalInSeconds w * 1000) \<le> d) (timers w)"
  shows "take (length (starts w)) (starts w') = starts w
         \<and> list_all (\<lambda>t. M + setTimeout_delay (batchingIntervalInSeconds w * 1000) \<le> t)
              (drop (length (starts w)) (starts w'))"
  using assms
proof (induction es arbitrary: w)
  case Nil
  then show ?case by simp
next
  case (Cons e es)
  from Cons.prems(1) obtain v where v: "step e w = Some v" and rest: "exec es v = Some w'"
    by (auto split: option.splits)
  from Cons.prems(2,3) have ne: "\<not> is_start e" "\<not> is_direct_call e"
    and nes: "\<not> list_ex is_start es" "\<not> list_ex is_direct_call es" by simp_all
  note one = step_after_bound [OF v ne Cons.prems(4,5)]
  let ?B = "M + setTimeout_delay (batchingIntervalInSeconds w * 1000)"
  from one have iv: "batchingIntervalInSeconds v = batchingIntervalInSeconds w" by simp
  from one have "take (length (starts v)) (starts w') = starts v
         \<and> list_all (\<lambda>t. ?B \<le> t) (drop (length (starts v)) (starts w'))"
    using Cons.IH [OF rest nes, of ] iv by simp
  then have tv: "take (length (starts v)) (starts w') = starts v"
    and dv: "list_all (\<lambda>t. ?B \<le> t) (drop (length (starts v)) (starts w'))" by simp_all
  from one have tw: "take (length (starts w)) (starts v) = starts w"
    and dw: "list_all (\<lambda>t. ?B \<le> t) (drop (length (starts w)) (starts v))" by simp_all
  have len: "length (starts w) \<le> length (starts v)"
    using tw by (metis length_take min.cobounded1)
  have lenv: "length (starts v) \<le> length (starts w')"
    using tv by (metis length_take min.cobounded1)
  have split: "starts w' = starts v @ drop (length (starts v)) (starts w')"
    using tv by (metis append_take_drop_id)
  have splitv: "starts v = starts w @ drop (length (starts w)) (starts v)"
    using tw by (metis append_take_drop_id)
  have a: "take (length (starts w)) (starts w') = starts w"
    using split splitv by (metis append_eq_conv_conj append.assoc)
  have "drop (length (starts w)) (starts w') =
          drop (length (starts w)) (starts v) @ drop (length (starts v)) (starts w')"
    using split splitv len by (metis drop_append diff_is_0_eq drop0)
  with dv dw have "list_all (\<lambda>t. ?B \<le> t) (drop (length (starts w)) (starts w'))"
    by simp
  with a show ?case by simp
qed



subsection \<open>Starting and stopping\<close>

text \<open>
  C7. \<open>startPeriodicBatchWriting\<close> sets the continue flag and queues exactly one callback
  with \<open>setImmediate\<close>, runnable at the current time. It returns without running it: no
  attempt has begun, none is in flight, none has finished, and no time has passed. The
  runtime can run the queued callback as its next step.
\<close>

theorem start_sets_flag_and_queues_one_callback:
  "step CallStart w = Some (startPeriodicBatchWriting w)
   \<and> continuePeriodicBatchWriting (startPeriodicBatchWriting w)
   \<and> effects (startPeriodicBatchWriting w) = effects w @ [SetImmediate]
   \<and> timers (startPeriodicBatchWriting w) = timers w @ [clock w]
   \<and> clock (startPeriodicBatchWriting w) = clock w
   \<and> starts (startPeriodicBatchWriting w) = starts w
   \<and> inflight (startPeriodicBatchWriting w) = inflight w
   \<and> finished (startPeriodicBatchWriting w) = finished w
   \<and> step (RunCallback (length (timers w)) c) (startPeriodicBatchWriting w) =
       Some (writeOperationBatch c ((startPeriodicBatchWriting w)\<lparr>timers := timers w\<rparr>))"
  by (simp add: start_simps remove_nth_last)




subsection \<open>One attempt at a time\<close>

text \<open>
  C8. In an execution from a new scheduler with at most one call of
  \<open>startPeriodicBatchWriting\<close> (any number of calls of \<open>stopPeriodicBatchWriting\<close>, no
  call of \<open>writeOperationBatch\<close> from outside the loop), the queued callbacks and the
  attempts in flight are together at most one at every moment. So at most one attempt is
  in flight; every attempt that has begun has finished, \<open>finally\<close> included, except
  the one in flight; and whenever the runtime can begin an attempt, none is in flight.
\<close>

theorem single_flight:
  assumes "exec es (newBatchScheduler n) = Some w"
    and "length (filter is_start es) \<le> 1"
    and "\<not> list_ex is_direct_call es"
  shows "length (timers w) + length (inflight w) \<le> 1
         \<and> length (inflight w) \<le> 1
         \<and> length (starts w) = length (finished w) + length (inflight w)
         \<and> (step (RunCallback i c) w \<noteq> None \<longrightarrow> inflight w = [])"
proof -
  have budget: "length (timers w) + length (inflight w) \<le> 1"
    using exec_budget [OF assms(1) assms(3)] assms(2)
    by (simp add: newBatchScheduler_def)
  have count: "length (starts w) = length (finished w) + length (inflight w)"
    using exec_attempt_count [OF assms(1)] by (simp add: newBatchScheduler_def)
  have "inflight w = []" if "step (RunCallback i c) w \<noteq> None"
  proof -
    from that have "0 < length (timers w)" by (auto split: if_splits)
    with budget show ?thesis by (cases "timers w"; cases "inflight w") simp_all
  qed
  with budget count show ?thesis by simp
qed


theorem single_flight_witness:
  "exec slow_write_pending (newBatchScheduler 1) = Some slow_write_world
   \<and> length (filter is_start slow_write_pending) \<le> 1
   \<and> \<not> list_ex is_direct_call slow_write_pending
   \<and> length (timers slow_write_world) + length (inflight slow_write_world) \<le> 1
   \<and> length (inflight slow_write_world) \<le> 1
   \<and> length (starts slow_write_world) =
       length (finished slow_write_world) + length (inflight slow_write_world)
   \<and> step (RunCallback 0 steady_collaborators) slow_write_world = None"
proof -
  have h2: "length (filter is_start slow_write_pending) \<le> 1"
    by (simp add: slow_write_pending_def)
  have h3: "\<not> list_ex is_direct_call slow_write_pending"
    by (simp add: slow_write_pending_def)
  note T = single_flight [OF slow_write_pending_world h2 h3, of 0 steady_collaborators]
  have n: "step (RunCallback 0 steady_collaborators) slow_write_world = None"
    by (simp add: slow_write_world_def)
  from T slow_write_pending_world h2 h3 n show ?thesis by blast
qed

subsection \<open>Errors inside an attempt\<close>



text \<open>
  C10. The handler does not look at what was thrown. When the dispatch function throws
  \<open>ConfigurationError\<close>, the attempt logs it, runs \<open>finally\<close> and resolves; no write is
  called and nothing stays in flight; the next attempt is queued, by \<open>setTimeout\<close> with
  the interval in milliseconds, if the continue flag is set, and only then. The queue,
  the finished attempts and the attempts in flight are what they are when the dispatch
  function throws any other value.
\<close>

theorem configuration_error_is_caught_like_any_other:
  assumes "approximateTime c = Inr bt"
    and "getBatchWriter c (time bt) = Inl ConfigurationError"
  shows "effects (writeOperationBatch c w) =
           effects w @
           [ConsoleInfo MsgStart, ApproximateTime, GetBatchWriter (time bt),
            ConsoleError MsgUnexpected, ConsoleError (MsgThrown ConfigurationError),
            ConsoleInfo (MsgEnd 0)] @
           (if continuePeriodicBatchWriting w
            then [ConsoleInfo (MsgWaiting (batchingIntervalInSeconds w)),
                  SetTimeout (batchingIntervalInSeconds w * 1000)] else [])
         \<and> finished (writeOperationBatch c w) = finished w @ [(clock w, clock w, Inr ())]
         \<and> timers (writeOperationBatch c w) =
             timers w @ (if continuePeriodicBatchWriting w
                         then [clock w + setTimeout_delay (batchingIntervalInSeconds w * 1000)] else [])
         \<and> inflight (writeOperationBatch c w) = inflight w
         \<and> continuePeriodicBatchWriting (writeOperationBatch c w) =
             continuePeriodicBatchWriting w
         \<and> timers (writeOperationBatch (c\<lparr>getBatchWriter := \<lambda>t. Inl e'\<rparr>) w) =
             timers (writeOperationBatch c w)
         \<and> finished (writeOperationBatch (c\<lparr>getBatchWriter := \<lambda>t. Inl e'\<rparr>) w) =
             finished (writeOperationBatch c w)
         \<and> inflight (writeOperationBatch (c\<lparr>getBatchWriter := \<lambda>t. Inl e'\<rparr>) w) =
             inflight (writeOperationBatch c w)"
proof -
  have t: "try_block c =
    ([ConsoleInfo MsgStart, ApproximateTime, GetBatchWriter (time bt)], Inl ConfigurationError)"
    using assms by (simp add: try_block_def)
  have t': "try_block (c\<lparr>getBatchWriter := \<lambda>t. Inl e'\<rparr>) =
    ([ConsoleInfo MsgStart, ApproximateTime, GetBatchWriter (time bt)], Inl e')"
    using assms by (simp add: try_block_def)
  show ?thesis
    by (simp add: writeOperationBatch_thrown t t' complete_simps)
qed

theorem configuration_error_is_caught_like_any_other_witness:
  "approximateTime misconfigured_collaborators =
     Inr \<lparr>time = 500000, hash = ''dummyHash''\<rparr>
   \<and> getBatchWriter misconfigured_collaborators 500000 = Inl ConfigurationError
   \<and> effects (writeOperationBatch misconfigured_collaborators
               (startPeriodicBatchWriting (newBatchScheduler 1))) =
       [SetImmediate, ConsoleInfo MsgStart, ApproximateTime, GetBatchWriter 500000,
        ConsoleError MsgUnexpected, ConsoleError (MsgThrown ConfigurationError),
        ConsoleInfo (MsgEnd 0), ConsoleInfo (MsgWaiting 1), SetTimeout 1000]
   \<and> finished (writeOperationBatch misconfigured_collaborators
                (startPeriodicBatchWriting (newBatchScheduler 1))) = [(0, 0, Inr ())]
   \<and> timers (writeOperationBatch misconfigured_collaborators
              (startPeriodicBatchWriting (newBatchScheduler 1))) = [0, 1000]"
proof -
  let ?bt = "\<lparr>time = 500000, hash = ''dummyHash''\<rparr>"
  have h1: "approximateTime misconfigured_collaborators = Inr ?bt"
    by (simp add: run_defs)
  have h2: "getBatchWriter misconfigured_collaborators (time ?bt) = Inl ConfigurationError"
    by (simp add: run_defs)
  note T = configuration_error_is_caught_like_any_other
    [OF h1 h2, of "startPeriodicBatchWriting (newBatchScheduler 1)"]
  from T h1 h2 show ?thesis
    by (simp add: start_simps newBatchScheduler_def setTimeout_delay_one_second)
qed

subsection \<open>The steps of an attempt\<close>

text \<open>
  C6. An attempt calls its collaborators in this order: it reads \<open>approximateTime\<close> of the
  ledger client, calls the dispatch function with the time it has just read, and calls
  \<open>write\<close> of the writer that the dispatch function returned. A step is reached only if
  the one before it did not throw: after a throw of the dispatch function there is no
  write, after a throw of the getter there is no dispatch.
\<close>

theorem attempt_reads_time_then_dispatches_then_writes:
  "(approximateTime c = Inr bt \<and> getBatchWriter c (time bt) = Inr bw \<longrightarrow>
      fst (try_block c) =
        [ConsoleInfo MsgStart, ApproximateTime, GetBatchWriter (time bt), Write bw]
      \<and> filter is_collaborator_call (effects (writeOperationBatch c w)) =
          filter is_collaborator_call (effects w) @
          [ApproximateTime, GetBatchWriter (time bt), Write bw])
   \<and> (approximateTime c = Inr bt \<and> getBatchWriter c (time bt) = Inl e \<longrightarrow>
      filter is_collaborator_call (effects (writeOperationBatch c w)) =
        filter is_collaborator_call (effects w) @ [ApproximateTime, GetBatchWriter (time bt)])
   \<and> (approximateTime c = Inl e \<longrightarrow>
      filter is_collaborator_call (effects (writeOperationBatch c w)) =
        filter is_collaborator_call (effects w) @ [ApproximateTime])"
  by (cases "write_call c bw")
     (auto simp: writeOperationBatch_def try_block_def Let_def complete_simps)

theorem attempt_reads_time_then_dispatches_then_writes_witness:
  "approximateTime steady_collaborators = Inr \<lparr>time = 500000, hash = ''dummyHash''\<rparr>
   \<and> getBatchWriter steady_collaborators 500000 = Inr 0
   \<and> filter is_collaborator_call
       (effects (writeOperationBatch steady_collaborators (newBatchScheduler 1))) =
       [ApproximateTime, GetBatchWriter 500000, Write 0]
   \<and> getBatchWriter misconfigured_collaborators 500000 = Inl ConfigurationError
   \<and> filter is_collaborator_call
       (effects (writeOperationBatch misconfigured_collaborators (newBatchScheduler 1))) =
       [ApproximateTime, GetBatchWriter 500000]
   \<and> approximateTime (steady_collaborators\<lparr>approximateTime := Inl TypeError\<rparr>) = Inl TypeError
   \<and> filter is_collaborator_call
       (effects (writeOperationBatch (steady_collaborators\<lparr>approximateTime := Inl TypeError\<rparr>)
                   (newBatchScheduler 1))) =
       [ApproximateTime]"
proof -
  let ?bt = "\<lparr>time = 500000, hash = ''dummyHash''\<rparr>"
  let ?w = "newBatchScheduler 1"
  have a1: "approximateTime steady_collaborators = Inr ?bt" by (simp add: run_defs)
  have a2: "getBatchWriter steady_collaborators (time ?bt) = Inr 0" by (simp add: run_defs)
  have b1: "approximateTime misconfigured_collaborators = Inr ?bt" by (simp add: run_defs)
  have b2: "getBatchWriter misconfigured_collaborators (time ?bt) = Inl ConfigurationError"
    by (simp add: run_defs)
  have d1: "approximateTime (steady_collaborators\<lparr>approximateTime := Inl TypeError\<rparr>) =
      Inl TypeError" by simp
  from attempt_reads_time_then_dispatches_then_writes
    [where c = steady_collaborators and bt = ?bt and bw = 0 and w = ?w] a1 a2
  have c1: "filter is_collaborator_call (effects (writeOperationBatch steady_collaborators ?w)) =
      filter is_collaborator_call (effects ?w) @
      [ApproximateTime, GetBatchWriter (time ?bt), Write 0]"
    by blast
  from attempt_reads_time_then_dispatches_then_writes
    [where c = misconfigured_collaborators and bt = ?bt and e = ConfigurationError
       and w = ?w] b1 b2
  have c2: "filter is_collaborator_call
      (effects (writeOperationBatch misconfigured_collaborators ?w)) =
      filter is_collaborator_call (effects ?w) @ [ApproximateTime, GetBatchWriter (time ?bt)]"
    by blast
  from attempt_reads_time_then_dispatches_then_writes
    [where c = "steady_collaborators\<lparr>approximateTime := Inl TypeError\<rparr>"
       and e = TypeError and w = ?w] d1
  have c3: "filter is_collaborator_call
      (effects (writeOperationBatch (steady_collaborators\<lparr>approximateTime := Inl TypeError\<rparr>)
                  ?w)) =
      filter is_collaborator_call (effects ?w) @ [ApproximateTime]"
    by blast
  from a1 a2 b2 d1 c1 c2 c3 show ?thesis by (simp add: newBatchScheduler_def)
qed


subsection \<open>When the next attempt is due\<close>




text \<open>
  C4, as stated, fails. With an interval of one second and a first write that takes three
  seconds, the write ends at 3000 ms and the next attempt is queued for 4000 ms, not for
  3000 ms: at 3000 ms the runtime cannot run the callback, and one second later the
  second attempt begins, at 4000 ms.
\<close>

theorem slow_write_counterexample:
  "map_option clock (exec slow_write_run (newBatchScheduler 1)) = Some 3000
   \<and> map_option timers (exec slow_write_run (newBatchScheduler 1)) = Some [4000]
   \<and> exec (slow_write_run @ [RunCallback 0 steady_collaborators]) (newBatchScheduler 1) = None
   \<and> map_option starts
       (exec (slow_write_run @ [Elapse 1000, RunCallback 0 steady_collaborators])
          (newBatchScheduler 1)) = Some [0, 4000]"
  by (simp add: run_defs)

text \<open>
  C4, amended. With an interval of one second and a first write that begins at time 0
  and takes three seconds (and resolves or rejects), the next attempt begins at 4000 ms
  when its callback runs on time, and in no execution of the loop before 4000 ms: not at
  1000 ms, when the write is still pending and no callback is queued, and not at 3000 ms,
  when the write ends.
\<close>

theorem slow_write_next_attempt_not_before_4s:
  assumes "snd (try_block c) = Inr bw"
    and "\<not> list_ex is_start es" and "\<not> list_ex is_direct_call es"
    and "exec ([CallStart, RunCallback 0 c, Elapse 3000, SettleWrite 0 r] @ es)
           (newBatchScheduler 1) = Some w"
  shows "take 1 (starts w) = [0] \<and> list_all (\<lambda>t. 4000 \<le> t) (drop 1 (starts w))
         \<and> map_option starts
             (exec [CallStart, RunCallback 0 c, Elapse 3000, SettleWrite 0 r,
                    Elapse 1000, RunCallback 0 c'] (newBatchScheduler 1)) = Some [0, 4000]
         \<and> exec [CallStart, RunCallback 0 c, Elapse 3000, SettleWrite 0 r,
                  RunCallback k c'] (newBatchScheduler 1) = None
         \<and> exec [CallStart, RunCallback 0 c, Elapse 1000, RunCallback k c']
             (newBatchScheduler 1) = None"
proof -
  obtain v where v: "exec [CallStart, RunCallback 0 c, Elapse 3000, SettleWrite 0 r]
                       (newBatchScheduler 1) = Some v"
    and rest: "exec es v = Some w"
    using assms(4) unfolding exec_append by (auto split: option.splits)
  from v assms(1) have f: "clock v = 3000" "timers v = [4000]" "starts v = [0]"
    "batchingIntervalInSeconds v = 1"
    by (auto simp: newBatchScheduler_def start_simps remove_nth_def
          writeOperationBatch_awaiting resume_def complete_simps setTimeout_delay_one_second split: if_splits)
  from exec_after_bound [OF rest assms(2,3), of 3000] f
  have a: "take 1 (starts w) = [0] \<and> list_all (\<lambda>t. 4000 \<le> t) (drop 1 (starts w))"
    by (simp add: setTimeout_delay_one_second)
  have b: "map_option starts
             (exec [CallStart, RunCallback 0 c, Elapse 3000, SettleWrite 0 r,
                    Elapse 1000, RunCallback 0 c'] (newBatchScheduler 1)) = Some [0, 4000]"
    using assms(1)
    by (simp add: newBatchScheduler_def start_simps remove_nth_def
          writeOperationBatch_awaiting resume_def complete_simps setTimeout_delay_one_second writeOperationBatch_simps)
  have c: "exec [CallStart, RunCallback 0 c, Elapse 3000, SettleWrite 0 r,
                  RunCallback k c'] (newBatchScheduler 1) = None"
    using assms(1)
    by (cases k)
       (simp_all add: newBatchScheduler_def start_simps remove_nth_def
          writeOperationBatch_awaiting resume_def complete_simps setTimeout_delay_one_second)
  have d: "exec [CallStart, RunCallback 0 c, Elapse 1000, RunCallback k c']
             (newBatchScheduler 1) = None"
    using assms(1)
    by (simp add: newBatchScheduler_def start_simps remove_nth_def
          writeOperationBatch_awaiting)
  from a b c d show ?thesis by blast
qed

theorem slow_write_next_attempt_not_before_4s_witness:
  "snd (try_block steady_collaborators) = Inr 0
   \<and> \<not> list_ex is_start [Elapse 1500, RunCallback 0 misconfigured_collaborators]
   \<and> \<not> list_ex is_direct_call [Elapse 1500, RunCallback 0 misconfigured_collaborators]
   \<and> map_option starts
       (exec ([CallStart, RunCallback 0 steady_collaborators, Elapse 3000,
               SettleWrite 0 (Inl TransientInfrastructureError)] @
              [Elapse 1500, RunCallback 0 misconfigured_collaborators])
          (newBatchScheduler 1)) = Some [0, 4500]
   \<and> take 1 [0, 4500 :: nat] = [0]
   \<and> list_all (\<lambda>t. 4000 \<le> t) (drop 1 [0, 4500 :: nat])"
proof -
  let ?es = "[Elapse 1500, RunCallback 0 misconfigured_collaborators]"
  let ?w = "\<lparr>continuePeriodicBatchWriting = True, batchingIntervalInSeconds = 1,
      clock = 4500, timers = [5500], inflight = [],
      effects = [SetImmediate, ConsoleInfo MsgStart, ApproximateTime,
                 GetBatchWriter 500000, Write 0, ConsoleError MsgUnexpected,
                 ConsoleError (MsgThrown TransientInfrastructureError),
                 ConsoleInfo (MsgEnd 3000), ConsoleInfo (MsgWaiting 1), SetTimeout 1000,
                 ConsoleInfo MsgStart, ApproximateTime, GetBatchWriter 500000,
                 ConsoleError MsgUnexpected, ConsoleError (MsgThrown ConfigurationError),
                 ConsoleInfo (MsgEnd 0), ConsoleInfo (MsgWaiting 1), SetTimeout 1000],
      starts = [0, 4500], finished = [(0, 3000, Inr ()), (4500, 4500, Inr ())]\<rparr>"
  have h1: "snd (try_block steady_collaborators) = Inr 0"
    by (simp add: try_block_steady)
  have h2: "\<not> list_ex is_start ?es" by simp
  have h3: "\<not> list_ex is_direct_call ?es" by simp
  have h4: "exec ([CallStart, RunCallback 0 steady_collaborators, Elapse 3000,
                   SettleWrite 0 (Inl TransientInfrastructureError)] @ ?es)
              (newBatchScheduler 1) = Some ?w"
    by (simp add: run_defs)
  from slow_write_next_attempt_not_before_4s [OF h1 h2 h3 h4]
  have c: "take 1 (starts ?w) = [0] \<and> list_all (\<lambda>t. 4000 \<le> t) (drop 1 (starts ?w))"
    by blast
  from h4 have s: "map_option starts
       (exec ([CallStart, RunCallback 0 steady_collaborators, Elapse 3000,
               SettleWrite 0 (Inl TransientInfrastructureError)] @ ?es)
          (newBatchScheduler 1)) = Some [0, 4500]"
    by simp
  from c have c': "take 1 [0, 4500 :: nat] = [0]
      \<and> list_all (\<lambda>t. 4000 \<le> t) (drop 1 [0, 4500 :: nat])"
    by simp
  from h1 h2 h3 s c' show ?thesis by blast
qed

end
